theory Spec2Isabelle
  imports Main
begin

section \<open>Data model\<close>

text \<open>
  A backend URL is kept as the string that \<open>url.Parse\<close> accepted. The reverse proxy of
  a backend is the closure built in \<open>addServerToPool\<close>; it is determined by the URL
  it captured, so a backend is its URL and its liveness flag.
\<close>

type_synonym url = string

record Backend =
  URL :: url
  Alive :: bool

record ServerPool =
  backends :: "Backend list"
  current :: nat

record Config =
  Port :: string
  Urls :: "string list"

text \<open>
  A request context is the chain of key/value pairs that \<open>context.WithValue\<close> builds,
  newest first. The keys of this program are the plain integers \<open>Attempts = 0\<close> and
  \<open>Retry = 1\<close>. A stored value is an \<open>int\<close> or something else; the type assertion
  \<open>.(int)\<close> succeeds on the former only. Of a request only its context is read.
\<close>

datatype ctx_value = IntV int | OtherV

type_synonym reqctx = "(int \<times> ctx_value) list"

definition Attempts :: int where
  "Attempts = 0"

definition Retry :: int where
  "Retry = 1"

definition Value :: "reqctx \<Rightarrow> int \<Rightarrow> ctx_value option" where
  "Value ctx k = map_of ctx k"

definition WithValue :: "reqctx \<Rightarrow> int \<Rightarrow> ctx_value \<Rightarrow> reqctx" where
  "WithValue ctx k v = (k, v) # ctx"

datatype response = HttpStatus nat string | Upstream url

text \<open>
  The state of the process and of its directory: the package-level pool, the content of
  \<open>config.json\<close> (none when it cannot be read), the number of round trips and of
  health-check cycles made so far, and the effects of a run in order.

  What a run does besides answering: calls of \<open>GetNextPeer\<close>, round trips of a
  reverse proxy (with the context of the forwarded request), the backoff in
  milliseconds, and calls of \<open>MarkBackendStatus\<close>. Log lines are not recorded.
\<close>

datatype event =
    GetNextPeerCalled
  | Forwarded url reqctx
  | Backoff nat
  | MarkBackendStatusCalled url bool

record world =
  serverPool :: ServerPool
  config_json :: "string option"
  trips :: nat
  checks :: nat
  events :: "event list"

section \<open>The server pool\<close>

text \<open>
  Modelled from the spec: package \<open>serverpool\<close> is not among the sources. Section 4.2:
  \<open>addBackend\<close> appends; \<open>removeAllBackends\<close> clears the sequence;
  \<open>markBackendStatus\<close> looks the backend up by address in a linear scan and sets its
  liveness, and is a no-op when the address is absent; \<open>healthCheck\<close> probes every
  backend and stores the result.
\<close>

definition AddBackend :: "ServerPool \<Rightarrow> Backend \<Rightarrow> ServerPool" where
  "AddBackend sp b = sp\<lparr>backends := backends sp @ [b]\<rparr>"

definition RemoveAllBackend :: "ServerPool \<Rightarrow> ServerPool" where
  "RemoveAllBackend sp = sp\<lparr>backends := []\<rparr>"

fun set_status :: "Backend list \<Rightarrow> url \<Rightarrow> bool \<Rightarrow> Backend list" where
  "set_status [] u a = []"
| "set_status (b # bs) u a =
     (if URL b = u then b\<lparr>Alive := a\<rparr> # bs else b # set_status bs u a)"

definition MarkBackendStatus :: "ServerPool \<Rightarrow> url \<Rightarrow> bool \<Rightarrow> ServerPool" where
  "MarkBackendStatus sp u a = sp\<lparr>backends := set_status (backends sp) u a\<rparr>"


text \<open>
  Modelled from the spec: \<open>ServerPool.GetNextPeer\<close> is not among the sources.
  Section 4.2: with \<open>n = len(backends)\<close>, none when \<open>n = 0\<close>; otherwise the cursor is
  incremented, the scan starts at the cursor modulo \<open>n\<close>, goes forward circularly
  through at most \<open>n\<close> positions and returns the first backend that is alive, or none.
\<close>

definition GetNextPeer :: "ServerPool \<Rightarrow> Backend option \<times> ServerPool" where
  "GetNextPeer sp =
     (let n = length (backends sp) in
      if n = 0 then (None, sp)
      else
        let c = current sp + 1;
            start = c mod n
        in (find Alive (rotate start (backends sp)), sp\<lparr>current := c\<rparr>))"

section \<open>Request counters\<close>

definition GetAttemptsFromContext :: "reqctx \<Rightarrow> int" where
  "GetAttemptsFromContext r =
     (case Value r Attempts of Some (IntV attempts) \<Rightarrow> attempts | _ \<Rightarrow> 1)"

definition GetRetryFromContext :: "reqctx \<Rightarrow> int" where
  "GetRetryFromContext r =
     (case Value r Retry of Some (IntV retry) \<Rightarrow> retry | _ \<Rightarrow> 0)"

lemma GetAttempts_WithValue_Retry:
  "GetAttemptsFromContext (WithValue r Retry v) = GetAttemptsFromContext r"
  by (simp add: GetAttemptsFromContext_def WithValue_def Value_def Attempts_def Retry_def)

lemma GetRetry_WithValue_Attempts:
  "GetRetryFromContext (WithValue r Attempts v) = GetRetryFromContext r"
  by (simp add: GetRetryFromContext_def WithValue_def Value_def Attempts_def Retry_def)

lemma GetAttempts_WithValue_Attempts:
  "GetAttemptsFromContext (WithValue r Attempts (IntV a)) = a"
  by (simp add: GetAttemptsFromContext_def WithValue_def Value_def)

lemma GetRetry_WithValue_Retry:
  "GetRetryFromContext (WithValue r Retry (IntV n)) = n"
  by (simp add: GetRetryFromContext_def WithValue_def Value_def)

text \<open>
  Go's \<open>int\<close> has 64 bits on the platforms this program is built for: adding 1 to the
  largest value gives the smallest. The integers a context stores are those between
  \<open>MinInt64\<close> and \<open>MaxInt64\<close>.
\<close>

definition MaxInt64 :: int where
  "MaxInt64 = 9223372036854775807"

definition MinInt64 :: int where
  "MinInt64 = - 9223372036854775808"

definition int_succ :: "int \<Rightarrow> int" where
  "int_succ n = (if n = MaxInt64 then MinInt64 else n + 1)"

lemma int_succ_small: "n \<le> 3 \<Longrightarrow> int_succ n = n + 1"
  by (simp add: int_succ_def MaxInt64_def)

lemma int_succ_large: "3 < n \<Longrightarrow> 3 < int_succ n \<or> int_succ n = MinInt64"
  by (simp add: int_succ_def)

text \<open>
  The measure of the routing recursion: the attempts and retries still allowed. A
  handler entered with more than 3 attempts re-enters the router at most once with an
  attempts value that lets it select again, the smallest integer.
\<close>

definition budget :: "reqctx \<Rightarrow> nat" where
  "budget r =
     (if 3 < GetAttemptsFromContext r then 4 + 3 * nat (4 - MinInt64)
      else 3 * nat (4 - GetAttemptsFromContext r))
     + 3 * nat (3 - GetRetryFromContext r)"

section \<open>The router and the error handler of a reverse proxy\<close>

text \<open>
  \<open>LB\<close> is the handler of the inbound server, \<open>ServeHTTP u\<close> the reverse proxy of
  the backend with URL \<open>u\<close>, and \<open>ErrorHandler u\<close> the closure installed on that
  proxy. Whether a round trip succeeds is the environment's choice: \<open>fwd k u\<close> tells
  whether the round trip number \<open>k\<close> (counted over the whole run), sent to \<open>u\<close>,
  succeeds. The proxy hands the error handler the request it was given.
\<close>

definition service_unavailable :: response where
  "service_unavailable = HttpStatus 503 (''Service not available'' @ [CHR 0x0A])"

definition record_event :: "event \<Rightarrow> world \<Rightarrow> world" where
  "record_event e s = s\<lparr>events := events s @ [e]\<rparr>"

function LB :: "(nat \<Rightarrow> url \<Rightarrow> bool) \<Rightarrow> reqctx \<Rightarrow> world \<Rightarrow> response \<times> world"
  and ServeHTTP :: "(nat \<Rightarrow> url \<Rightarrow> bool) \<Rightarrow> url \<Rightarrow> reqctx \<Rightarrow> world \<Rightarrow> response \<times> world"
  and ErrorHandler :: "(nat \<Rightarrow> url \<Rightarrow> bool) \<Rightarrow> url \<Rightarrow> reqctx \<Rightarrow> world \<Rightarrow> response \<times> world"
where
  "LB fwd r s =
     (if GetAttemptsFromContext r > 3 then (service_unavailable, s)
      else
        (case fst (GetNextPeer (serverPool s)) of
           Some peer \<Rightarrow>
             ServeHTTP fwd (URL peer) r
               (record_event GetNextPeerCalled (s\<lparr>serverPool := snd (GetNextPeer (serverPool s))\<rparr>))
         | None \<Rightarrow>
             (service_unavailable,
              record_event GetNextPeerCalled (s\<lparr>serverPool := snd (GetNextPeer (serverPool s))\<rparr>))))"
| "ServeHTTP fwd u r s =
     (if fwd (trips s) u then (Upstream u, record_event (Forwarded u r) (s\<lparr>trips := trips s + 1\<rparr>))
      else ErrorHandler fwd u r (record_event (Forwarded u r) (s\<lparr>trips := trips s + 1\<rparr>)))"
| "ErrorHandler fwd u r s =
     (if GetRetryFromContext r < 3 then
        ServeHTTP fwd u (WithValue r Retry (IntV (GetRetryFromContext r + 1)))
          (record_event (Backoff 10) s)
      else
        LB fwd (WithValue r Attempts (IntV (int_succ (GetAttemptsFromContext r))))
          (record_event (MarkBackendStatusCalled u False)
            (s\<lparr>serverPool := MarkBackendStatus (serverPool s) u False\<rparr>)))"
  by pat_completeness auto
termination
proof (relation "measure (\<lambda>x. case x of
          Inl (fwd, r, s) \<Rightarrow> (if GetAttemptsFromContext r > 3 then 0 else 3 + budget r)
        | Inr (Inl (fwd, u, r, s)) \<Rightarrow> 2 + budget r
        | Inr (Inr (fwd, u, r, s)) \<Rightarrow> 1 + budget r)", goal_cases)
  case 1
  show ?case by simp
next
  case (2 fwd r s peer)
  then show ?case by simp
next
  case (3 fwd u r s)
  show ?case by simp
next
  case (4 fwd u r s)
  then show ?case
    by (simp add: budget_def GetAttempts_WithValue_Retry GetRetry_WithValue_Retry)
next
  case (5 fwd u r s)
  have step: "2 + 3 * nat (3 - a) < 3 * nat (4 - a)" if "a \<le> 2" for a :: int
    using that by arith
  show ?case
  proof (cases "3 < GetAttemptsFromContext r")
    case True
    from int_succ_large [OF True] 5 True show ?thesis
      by (auto simp: budget_def GetAttempts_WithValue_Attempts GetRetry_WithValue_Attempts)
  next
    case False
    then have "int_succ (GetAttemptsFromContext r) = GetAttemptsFromContext r + 1"
      by (simp add: int_succ_small)
    with 5 False show ?thesis
      using step [of "GetAttemptsFromContext r"]
      by (simp add: budget_def GetAttempts_WithValue_Attempts GetRetry_WithValue_Attempts)
  qed
qed

declare LB.simps [simp del] ServeHTTP.simps [simp del] ErrorHandler.simps [simp del]

text \<open>Counting the effects of a run.\<close>

fun is_mark_down :: "event \<Rightarrow> bool" where
  "is_mark_down (MarkBackendStatusCalled u a) = (\<not> a)"
| "is_mark_down _ = False"

definition selections :: "world \<Rightarrow> nat" where
  "selections s = count_list (events s) GetNextPeerCalled"

definition failovers :: "world \<Rightarrow> nat" where
  "failovers s = length (filter is_mark_down (events s))"

fun forwards_to :: "url \<Rightarrow> event list \<Rightarrow> nat" where
  "forwards_to u [] = 0"
| "forwards_to u (Forwarded v r # es) = (if v = u then 1 else 0) + forwards_to u es"
| "forwards_to u (e # es) = forwards_to u es"

text \<open>
  The first backend of the pool with address \<open>u\<close>, the one \<open>MarkBackendStatus\<close>
  finds, is not alive (or the pool has no backend with that address).
\<close>

definition is_down :: "url \<Rightarrow> ServerPool \<Rightarrow> bool" where
  "is_down u sp =
     (case find (\<lambda>b. URL b = u) (backends sp) of None \<Rightarrow> True | Some b \<Rightarrow> \<not> Alive b)"

definition retry_ctx :: "reqctx \<Rightarrow> int \<Rightarrow> reqctx" where
  "retry_ctx r n = WithValue r Retry (IntV n)"

section \<open>Configuration: startup and reload\<close>

text \<open>
  The library calls are parameters. \<open>json_Unmarshal\<close> gives the struct as the decoder
  left it (starting from the zero value) and whether it returned an error;
  \<open>json_Marshal\<close> cannot fail on a struct of a string and a string slice;
  \<open>url_Parse\<close> gives none where \<open>url.Parse\<close> returns an error; \<open>WriteFile\<close> gives
  the content of \<open>config.json\<close> after the call, from the content to write and the
  file as it was (its error is only printed).
\<close>

record runtime =
  json_Unmarshal :: "string \<Rightarrow> Config \<times> bool"
  json_Marshal :: "Config \<Rightarrow> string"
  url_Parse :: "string \<Rightarrow> url option"
  WriteFile :: "string \<Rightarrow> string option \<Rightarrow> string option"

text \<open>
  \<open>log.Fatal\<close> ends the process: \<open>Fatal s\<close> is an exit in state \<open>s\<close>, \<open>Ok v s\<close>
  a return of \<open>v\<close> in state \<open>s\<close>.
\<close>

datatype 'a result = Fatal world | Ok 'a world

fun state_of :: "'a result \<Rightarrow> world" where
  "state_of (Fatal s) = s"
| "state_of (Ok v s) = s"

fun is_fatal :: "'a result \<Rightarrow> bool" where
  "is_fatal (Fatal s) = True"
| "is_fatal (Ok v s) = False"

fun addServerToPool :: "(string \<Rightarrow> url option) \<Rightarrow> string list \<Rightarrow> world \<Rightarrow> unit result" where
  "addServerToPool parse [] s = Ok () s"
| "addServerToPool parse (tok # serverList) s =
     (case parse tok of
        None \<Rightarrow> Fatal s
      | Some serverUrl \<Rightarrow>
          addServerToPool parse serverList
            (s\<lparr>serverPool := AddBackend (serverPool s) \<lparr>URL = serverUrl, Alive = True\<rparr>\<rparr>))"

text \<open>The URLs parsed before the first one that \<open>url.Parse\<close> rejects.\<close>

fun parsed_prefix :: "(string \<Rightarrow> url option) \<Rightarrow> string list \<Rightarrow> url list" where
  "parsed_prefix parse [] = []"
| "parsed_prefix parse (tok # toks) =
     (case parse tok of None \<Rightarrow> [] | Some u \<Rightarrow> u # parsed_prefix parse toks)"

definition UpdateConfig :: "runtime \<Rightarrow> string \<Rightarrow> world \<Rightarrow> response result" where
  "UpdateConfig rt requestBody s =
     (let inputConfig = fst (json_Unmarshal rt requestBody);
          err = snd (json_Unmarshal rt requestBody)
      in if err then Ok (HttpStatus 400 []) s
         else
           let content = json_Marshal rt inputConfig;
               s1 = s\<lparr>config_json := WriteFile rt content (config_json s)\<rparr>;
               s2 = s1\<lparr>serverPool := RemoveAllBackend (serverPool s1)\<rparr>
           in case addServerToPool (url_Parse rt) (Urls inputConfig) s2 of
                Fatal s3 \<Rightarrow> Fatal s3
              | Ok _ s3 \<Rightarrow> Ok (HttpStatus 200 (json_Marshal rt inputConfig @ [CHR 0x0A])) s3)"

text \<open>
  \<open>main\<close> up to the point where the servers are started; it returns the port of the
  load balancer. The pool is the zero value when \<open>main\<close> starts, and the error of
  \<open>json.Unmarshal\<close> is ignored there.
\<close>

definition boot :: "string option \<Rightarrow> world" where
  "boot file =
     \<lparr>serverPool = \<lparr>backends = [], current = 0\<rparr>, config_json = file,
      trips = 0, checks = 0, events = []\<rparr>"

definition main_startup :: "runtime \<Rightarrow> string option \<Rightarrow> string result" where
  "main_startup rt file =
     (case file of
        None \<Rightarrow> Fatal (boot file)
      | Some data \<Rightarrow>
          let cfg = fst (json_Unmarshal rt data) in
          if length (Urls cfg) = 0 then Fatal (boot file)
          else
            (case addServerToPool (url_Parse rt) (Urls cfg) (boot file) of
               Fatal s \<Rightarrow> Fatal s
             | Ok _ s \<Rightarrow> Ok (if Port cfg = [] then ''3000'' else Port cfg) s))"

section \<open>The health checker\<close>






section \<open>Example states\<close>

definition backend_a :: Backend where
  "backend_a = \<lparr>URL = ''http://a'', Alive = True\<rparr>"

definition backend_b :: Backend where
  "backend_b = \<lparr>URL = ''http://b'', Alive = True\<rparr>"

definition backend_c :: Backend where
  "backend_c = \<lparr>URL = ''http://c'', Alive = True\<rparr>"

definition dead :: "Backend \<Rightarrow> Backend" where
  "dead b = b\<lparr>Alive := False\<rparr>"

definition world_of :: "Backend list \<Rightarrow> world" where
  "world_of bs =
     \<lparr>serverPool = \<lparr>backends = bs, current = 0\<rparr>, config_json = None,
      trips = 0, checks = 0, events = []\<rparr>"

definition always_fails :: "nat \<Rightarrow> url \<Rightarrow> bool" where
  "always_fails k u = False"

text \<open>A small JSON encoder and a decoder of the texts it knows, for the examples.\<close>

definition jstr :: "string \<Rightarrow> string" where
  "jstr x = [CHR 0x22] @ x @ [CHR 0x22]"

fun commas :: "string list \<Rightarrow> string" where
  "commas [] = []"
| "commas [x] = x"
| "commas (x # y # zs) = x @ '','' @ commas (y # zs)"

definition example_marshal :: "Config \<Rightarrow> string" where
  "example_marshal c =
     ''{'' @ jstr ''port'' @ '':'' @ jstr (Port c) @ '','' @ jstr ''urls'' @ '':['' @
     commas (map jstr (Urls c)) @ '']}''"

definition config_good :: Config where
  "config_good = \<lparr>Port = ''8080'', Urls = [''http://a'', ''http://b'']\<rparr>"

definition config_no_urls :: Config where
  "config_no_urls = \<lparr>Port = ''8080'', Urls = []\<rparr>"

definition config_bad_url :: Config where
  "config_bad_url = \<lparr>Port = ''8080'', Urls = [''http://a'', '':'', ''http://b'']\<rparr>"

definition example_unmarshal :: "string \<Rightarrow> Config \<times> bool" where
  "example_unmarshal body =
     (case find (\<lambda>c. example_marshal c = body) [config_good, config_no_urls, config_bad_url] of
        Some c \<Rightarrow> (c, False)
      | None \<Rightarrow> (\<lparr>Port = [], Urls = []\<rparr>, True))"

definition example_parse :: "string \<Rightarrow> url option" where
  "example_parse tok = (if tok = '':'' then None else Some tok)"

definition example_runtime :: runtime where
  "example_runtime =
     \<lparr>json_Unmarshal = example_unmarshal, json_Marshal = example_marshal,
      url_Parse = example_parse, WriteFile = (\<lambda>content file. Some content)\<rparr>"

definition one_unreachable :: world where
  "one_unreachable = state_of (addServerToPool example_parse [''http://a''] (boot None))"

definition always_succeeds :: "nat \<Rightarrow> url \<Rightarrow> bool" where
  "always_succeeds k u = True"

section \<open>Adding servers to the pool\<close>

lemma addServerToPool_backends:
  "backends (serverPool (state_of (addServerToPool parse toks s))) =
     backends (serverPool s) @ map (\<lambda>u. \<lparr>URL = u, Alive = True\<rparr>) (parsed_prefix parse toks)"
  by (induction toks arbitrary: s) (auto simp: AddBackend_def split: option.splits)


lemma addServerToPool_fatal:
  "is_fatal (addServerToPool parse toks s) = (\<exists>tok\<in>set toks. parse tok = None)"
  by (induction toks arbitrary: s) (auto split: option.splits)

lemma parsed_prefix_all:
  "\<forall>tok\<in>set toks. parse tok \<noteq> None \<Longrightarrow> length (parsed_prefix parse toks) = length toks"
  by (induction toks) (auto split: option.splits)

section \<open>Reload and startup\<close>

lemma UpdateConfig_accepted:
  assumes "\<not> snd (json_Unmarshal rt body)"
  shows "UpdateConfig rt body s =
      (case addServerToPool (url_Parse rt) (Urls (fst (json_Unmarshal rt body)))
              (s\<lparr>config_json :=
                   WriteFile rt (json_Marshal rt (fst (json_Unmarshal rt body))) (config_json s),
                 serverPool := RemoveAllBackend (serverPool s)\<rparr>) of
         Fatal s3 \<Rightarrow> Fatal s3
       | Ok x s3 \<Rightarrow>
           Ok (HttpStatus 200 (json_Marshal rt (fst (json_Unmarshal rt body)) @ [CHR 0x0A])) s3)"
  using assms by (simp add: UpdateConfig_def Let_def)



lemma main_startup_serving:
  assumes "main_startup rt file = Ok port s'"
  shows "backends (serverPool s') \<noteq> []"
proof -
  from assms obtain data where fl: "file = Some data"
    by (cases "file") (auto simp: main_startup_def)
  let ?toks = "Urls (fst (json_Unmarshal rt data))"
  from assms fl have ne: "?toks \<noteq> []"
    by (auto simp: main_startup_def Let_def split: if_splits)
  let ?add = "addServerToPool (url_Parse rt) ?toks (boot file)"
  from assms fl ne have add: "\<not> is_fatal ?add" and st: "state_of ?add = s'"
    by (auto simp: main_startup_def Let_def split: result.splits)
  from add have "\<forall>tok\<in>set ?toks. url_Parse rt tok \<noteq> None"
    by (simp add: addServerToPool_fatal)
  then have "length (parsed_prefix (url_Parse rt) ?toks) = length ?toks"
    by (rule parsed_prefix_all)
  with ne have "parsed_prefix (url_Parse rt) ?toks \<noteq> []" by auto
  with addServerToPool_backends [of "url_Parse rt" ?toks "boot file"] st
  show ?thesis by simp
qed

section \<open>The health-check loop\<close>




section \<open>Selection skips dead backends\<close>

lemma GetNextPeer_returns_alive:
  assumes "fst (GetNextPeer sp) = Some b"
  shows "Alive b \<and> b \<in> set (backends sp)"
proof -
  from assms have ne: "backends sp \<noteq> []"
    by (auto simp: GetNextPeer_def)
  with assms have f: "find Alive (rotate (Suc (current sp) mod length (backends sp)) (backends sp)) = Some b"
    by (simp add: GetNextPeer_def Let_def)
  then obtain i where "i < length (rotate (Suc (current sp) mod length (backends sp)) (backends sp))"
      and "Alive (rotate (Suc (current sp) mod length (backends sp)) (backends sp) ! i)"
      and "b = rotate (Suc (current sp) mod length (backends sp)) (backends sp) ! i"
    by (auto simp: find_Some_iff)
  then have "Alive b" and "b \<in> set (rotate (Suc (current sp) mod length (backends sp)) (backends sp))"
    by (auto simp del: set_rotate length_rotate)
  then show ?thesis by simp
qed

lemma GetNextPeer_finds_alive:
  assumes "\<exists>b\<in>set (backends sp). Alive b"
  shows "\<exists>b. fst (GetNextPeer sp) = Some b"
proof -
  from assms have ne: "backends sp \<noteq> []" by auto
  from assms have "find Alive (rotate (Suc (current sp) mod length (backends sp)) (backends sp)) \<noteq> None"
    by (auto simp: find_None_iff)
  with ne show ?thesis
    by (auto simp: GetNextPeer_def Let_def)
qed

lemma GetNextPeer_all_dead:
  assumes "\<forall>b\<in>set (backends sp). \<not> Alive b"
  shows "fst (GetNextPeer sp) = None"
proof (cases "fst (GetNextPeer sp)")
  case None
  then show ?thesis .
next
  case (Some b)
  from GetNextPeer_returns_alive [OF Some] assms show ?thesis by blast
qed

lemma LB_no_peer:
  assumes "fst (GetNextPeer (serverPool s)) = None"
  shows "fst (LB fwd r s) = service_unavailable"
  using assms by (simp add: LB.simps)

section \<open>Bounds on a routing run\<close>

lemma selections_record_event [simp]:
  "selections (record_event e s) = selections s + (if e = GetNextPeerCalled then 1 else 0)"
  by (simp add: selections_def record_event_def)

lemma selections_upd [simp]:
  "selections (s\<lparr>serverPool := p\<rparr>) = selections s"
  "selections (s\<lparr>trips := k\<rparr>) = selections s"
  by (simp_all add: selections_def)

lemma failovers_record_event [simp]:
  "failovers (record_event e s) = failovers s + (if is_mark_down e then 1 else 0)"
  by (simp add: failovers_def record_event_def)

lemma failovers_upd [simp]:
  "failovers (s\<lparr>serverPool := p\<rparr>) = failovers s"
  "failovers (s\<lparr>trips := k\<rparr>) = failovers s"
  by (simp_all add: failovers_def)

lemma selections_bound:
  "selections (snd (LB fwd r s)) \<le> selections s + nat (4 - GetAttemptsFromContext r)"
  "GetAttemptsFromContext r' \<le> 3 \<Longrightarrow>
     selections (snd (ServeHTTP fwd u r' s')) \<le> selections s' + nat (3 - GetAttemptsFromContext r')"
  "GetAttemptsFromContext r'' \<le> 3 \<Longrightarrow>
     selections (snd (ErrorHandler fwd u' r'' s'')) \<le> selections s'' + nat (3 - GetAttemptsFromContext r'')"
proof (induct fwd r s and fwd u r' s' and fwd u' r'' s'' rule: LB_ServeHTTP_ErrorHandler.induct)
  case (1 fwd r s)
  show ?case
  proof (cases "3 < GetAttemptsFromContext r")
    case True
    then show ?thesis by (simp add: LB.simps)
  next
    case False
    show ?thesis
    proof (cases "fst (GetNextPeer (serverPool s))")
      case None
      with False show ?thesis by (simp add: LB.simps)
    next
      case (Some peer)
      from False have le: "GetAttemptsFromContext r \<le> 3" by simp
      from 1 [OF False Some le] False Some show ?thesis
        by (simp add: LB.simps)
    qed
  qed
next
  case (2 fwd u r s)
  show ?case
  proof (cases "fwd (trips s) u")
    case True
    then show ?thesis by (simp add: ServeHTTP.simps)
  next
    case False
    from 2(1) [OF False 2(2)] False show ?thesis by (simp add: ServeHTTP.simps)
  qed
next
  case (3 fwd u r s)
  show ?case
  proof (cases "GetRetryFromContext r < 3")
    case True
    from 3(1) [OF True] 3(3) True show ?thesis
      by (simp add: ErrorHandler.simps GetAttempts_WithValue_Retry)
  next
    case False
    from 3(2) [OF False] 3(3) False show ?thesis
      by (simp add: ErrorHandler.simps GetAttempts_WithValue_Attempts int_succ_small)
  qed
qed

lemma failovers_bound:
  "failovers (snd (LB fwd r s)) \<le> failovers s + nat (4 - GetAttemptsFromContext r) \<and>
   (failovers (snd (LB fwd r s)) = failovers s + nat (4 - GetAttemptsFromContext r) \<longrightarrow>
      fst (LB fwd r s) = service_unavailable)"
  "GetAttemptsFromContext r' \<le> 3 \<Longrightarrow>
     failovers (snd (ServeHTTP fwd u r' s')) \<le> failovers s' + nat (4 - GetAttemptsFromContext r') \<and>
     (failovers (snd (ServeHTTP fwd u r' s')) = failovers s' + nat (4 - GetAttemptsFromContext r') \<longrightarrow>
        fst (ServeHTTP fwd u r' s') = service_unavailable)"
  "GetAttemptsFromContext r'' \<le> 3 \<Longrightarrow>
     failovers (snd (ErrorHandler fwd u' r'' s'')) \<le> failovers s'' + nat (4 - GetAttemptsFromContext r'') \<and>
     (failovers (snd (ErrorHandler fwd u' r'' s'')) = failovers s'' + nat (4 - GetAttemptsFromContext r'') \<longrightarrow>
        fst (ErrorHandler fwd u' r'' s'') = service_unavailable)"
proof (induct fwd r s and fwd u r' s' and fwd u' r'' s'' rule: LB_ServeHTTP_ErrorHandler.induct)
  case (1 fwd r s)
  show ?case
  proof (cases "3 < GetAttemptsFromContext r")
    case True
    then show ?thesis by (simp add: LB.simps)
  next
    case False
    show ?thesis
    proof (cases "fst (GetNextPeer (serverPool s))")
      case None
      with False show ?thesis by (simp add: LB.simps)
    next
      case (Some peer)
      from False have le: "GetAttemptsFromContext r \<le> 3" by simp
      from 1 [OF False Some le] False Some show ?thesis
        by (simp add: LB.simps)
    qed
  qed
next
  case (2 fwd u r s)
  show ?case
  proof (cases "fwd (trips s) u")
    case True
    with 2(2) show ?thesis by (simp add: ServeHTTP.simps)
  next
    case False
    from 2(1) [OF False 2(2)] False show ?thesis by (simp add: ServeHTTP.simps)
  qed
next
  case (3 fwd u r s)
  show ?case
  proof (cases "GetRetryFromContext r < 3")
    case True
    from 3(1) [OF True] 3(3) True show ?thesis
      by (simp add: ErrorHandler.simps GetAttempts_WithValue_Retry)
  next
    case False
    have eq: "nat (4 - GetAttemptsFromContext r) = Suc (nat (4 - (GetAttemptsFromContext r + 1)))"
      using 3(3) by arith
    from 3(2) [OF False] 3(3) False show ?thesis
      unfolding eq by (simp add: ErrorHandler.simps GetAttempts_WithValue_Attempts int_succ_small)
  qed
qed

section \<open>What a run leaves behind\<close>

lemma find_set_status_same:
  "find (\<lambda>b. URL b = u) (set_status bs u a) =
     map_option (\<lambda>b. b\<lparr>Alive := a\<rparr>) (find (\<lambda>b. URL b = u) bs)"
  by (induction bs) auto

lemma find_set_status_other:
  "v \<noteq> u \<Longrightarrow> find (\<lambda>b. URL b = u) (set_status bs v a) = find (\<lambda>b. URL b = u) bs"
  by (induction bs) auto

lemma is_down_MarkBackendStatus: "is_down u (MarkBackendStatus sp u False)"
  by (simp add: is_down_def MarkBackendStatus_def find_set_status_same split: option.splits)

lemma is_down_kept_by_mark:
  "is_down u sp \<Longrightarrow> is_down u (MarkBackendStatus sp v False)"
  by (cases "v = u")
    (auto simp: is_down_def MarkBackendStatus_def find_set_status_same find_set_status_other
      split: option.splits)

lemma backends_GetNextPeer: "backends (snd (GetNextPeer sp)) = backends sp"
  by (simp add: GetNextPeer_def Let_def)

lemma is_down_kept_by_select: "is_down u (snd (GetNextPeer sp)) = is_down u sp"
  by (simp add: is_down_def backends_GetNextPeer)

lemma is_down_kept:
  "is_down v (serverPool s) \<Longrightarrow> is_down v (serverPool (snd (LB fwd r s)))"
  "is_down v (serverPool s') \<Longrightarrow> is_down v (serverPool (snd (ServeHTTP fwd u r' s')))"
  "is_down v (serverPool s'') \<Longrightarrow> is_down v (serverPool (snd (ErrorHandler fwd u' r'' s'')))"
proof (induct fwd r s and fwd u r' s' and fwd u' r'' s'' rule: LB_ServeHTTP_ErrorHandler.induct)
  case (1 fwd r s)
  show ?case
  proof (cases "3 < GetAttemptsFromContext r")
    case True
    with 1(2) show ?thesis by (simp add: LB.simps)
  next
    case False
    show ?thesis
    proof (cases "fst (GetNextPeer (serverPool s))")
      case None
      with False 1(2) show ?thesis
        by (simp add: LB.simps record_event_def is_down_kept_by_select)
    next
      case (Some peer)
      from 1(1) [OF False Some] 1(2) False Some show ?thesis
        by (simp add: LB.simps record_event_def is_down_kept_by_select)
    qed
  qed
next
  case (2 fwd u r s)
  show ?case
  proof (cases "fwd (trips s) u")
    case True
    with 2(2) show ?thesis by (simp add: ServeHTTP.simps record_event_def)
  next
    case False
    from 2(1) [OF False] 2(2) False show ?thesis
      by (simp add: ServeHTTP.simps record_event_def)
  qed
next
  case (3 fwd u r s)
  show ?case
  proof (cases "GetRetryFromContext r < 3")
    case True
    from 3(1) [OF True] 3(3) True show ?thesis
      by (simp add: ErrorHandler.simps record_event_def)
  next
    case False
    from 3(2) [OF False] 3(3) False show ?thesis
      by (simp add: ErrorHandler.simps record_event_def is_down_kept_by_mark)
  qed
qed

lemma events_grow:
  "\<exists>rest. events (snd (LB fwd r s)) = events s @ rest"
  "\<exists>rest. events (snd (ServeHTTP fwd u r' s')) = events s' @ rest"
  "\<exists>rest. events (snd (ErrorHandler fwd u' r'' s'')) = events s'' @ rest"
proof (induct fwd r s and fwd u r' s' and fwd u' r'' s'' rule: LB_ServeHTTP_ErrorHandler.induct)
  case (1 fwd r s)
  show ?case
  proof (cases "3 < GetAttemptsFromContext r")
    case True
    then show ?thesis by (simp add: LB.simps)
  next
    case False
    show ?thesis
    proof (cases "fst (GetNextPeer (serverPool s))")
      case None
      with False show ?thesis by (simp add: LB.simps record_event_def)
    next
      case (Some peer)
      from 1 [OF False Some] False Some show ?thesis
        by (auto simp: LB.simps record_event_def)
    qed
  qed
next
  case (2 fwd u r s)
  show ?case
  proof (cases "fwd (trips s) u")
    case True
    then show ?thesis by (simp add: ServeHTTP.simps record_event_def)
  next
    case False
    from 2 [OF False] False show ?thesis
      by (auto simp: ServeHTTP.simps record_event_def)
  qed
next
  case (3 fwd u r s)
  show ?case
  proof (cases "GetRetryFromContext r < 3")
    case True
    from 3(1) [OF True] True show ?thesis
      by (auto simp: ErrorHandler.simps record_event_def)
  next
    case False
    from 3(2) [OF False] False show ?thesis
      by (auto simp: ErrorHandler.simps record_event_def)
  qed
qed

lemma failovers_grow:
  "failovers s \<le> failovers (snd (LB fwd r s))"
  "failovers s \<le> failovers (snd (ServeHTTP fwd u r s))"
  "failovers s \<le> failovers (snd (ErrorHandler fwd u r s))"
  using events_grow(1) [of fwd r s] events_grow(2) [of fwd u r s] events_grow(3) [of fwd u r s]
  by (auto simp: failovers_def)

lemma pool_kept:
  "failovers (snd (LB fwd r s)) = failovers s \<Longrightarrow>
     backends (serverPool (snd (LB fwd r s))) = backends (serverPool s)"
  "failovers (snd (ServeHTTP fwd u r' s')) = failovers s' \<Longrightarrow>
     backends (serverPool (snd (ServeHTTP fwd u r' s'))) = backends (serverPool s')"
  "failovers (snd (ErrorHandler fwd u' r'' s'')) = failovers s'' \<Longrightarrow>
     backends (serverPool (snd (ErrorHandler fwd u' r'' s''))) = backends (serverPool s'')"
proof (induct fwd r s and fwd u r' s' and fwd u' r'' s'' rule: LB_ServeHTTP_ErrorHandler.induct)
  case (1 fwd r s)
  show ?case
  proof (cases "3 < GetAttemptsFromContext r")
    case True
    then show ?thesis by (simp add: LB.simps)
  next
    case False
    show ?thesis
    proof (cases "fst (GetNextPeer (serverPool s))")
      case None
      with False show ?thesis
        by (simp add: LB.simps record_event_def backends_GetNextPeer)
    next
      case (Some peer)
      from 1(1) [OF False Some] 1(2) False Some show ?thesis
        by (simp add: LB.simps backends_GetNextPeer) (simp add: record_event_def backends_GetNextPeer)
    qed
  qed
next
  case (2 fwd u r s)
  show ?case
  proof (cases "fwd (trips s) u")
    case True
    then show ?thesis by (simp add: ServeHTTP.simps record_event_def)
  next
    case False
    from 2(1) [OF False] 2(2) False show ?thesis
      by (simp add: ServeHTTP.simps) (simp add: record_event_def)
  qed
next
  case (3 fwd u r s)
  show ?case
  proof (cases "GetRetryFromContext r < 3")
    case True
    from 3(1) [OF True] 3(3) True show ?thesis
      by (simp add: ErrorHandler.simps) (simp add: record_event_def)
  next
    case False
    let ?s1 = "record_event (MarkBackendStatusCalled u False)
        (s\<lparr>serverPool := MarkBackendStatus (serverPool s) u False\<rparr>)"
    let ?r1 = "WithValue r Attempts (IntV (int_succ (GetAttemptsFromContext r)))"
    from False have "ErrorHandler fwd u r s = LB fwd ?r1 ?s1"
      by (simp add: ErrorHandler.simps)
    moreover have "failovers ?s1 = failovers s + 1" by simp
    moreover note failovers_grow(1) [of ?s1 fwd ?r1]
    ultimately have "failovers s < failovers (snd (ErrorHandler fwd u r s))" by simp
    with 3(3) show ?thesis by simp
  qed
qed

lemma ServeHTTP_gives_up:
  assumes "Value r Retry = None" and "\<And>k. \<not> fwd k u"
  shows "ServeHTTP fwd u r s =
      LB fwd
        (WithValue (retry_ctx (retry_ctx (retry_ctx r 1) 2) 3) Attempts
           (IntV (int_succ (GetAttemptsFromContext r))))
        (s\<lparr>trips := trips s + 4,
           serverPool := MarkBackendStatus (serverPool s) u False,
           events := events s @
             [Forwarded u r, Backoff 10,
              Forwarded u (retry_ctx r 1), Backoff 10,
              Forwarded u (retry_ctx (retry_ctx r 1) 2), Backoff 10,
              Forwarded u (retry_ctx (retry_ctx (retry_ctx r 1) 2) 3),
              MarkBackendStatusCalled u False]\<rparr>)"
proof -
  from assms(1) have r0: "GetRetryFromContext r = 0"
    by (simp add: GetRetryFromContext_def)
  have four: "trips s + 4 = Suc (Suc (Suc (Suc (trips s))))" by simp
  show ?thesis
    by (simp add: ServeHTTP.simps ErrorHandler.simps assms(2) r0 retry_ctx_def
        GetRetry_WithValue_Retry GetAttempts_WithValue_Retry record_event_def four)
qed

section \<open>Claims\<close>

text \<open>
  C1. A request that enters the router with more than 3 attempts is answered 503 at once,
  in an unchanged state: the pool's cursor has not moved and no selection was made. A
  request that arrives without an attempts value makes at most 3 selections, and when 3
  backends have been given up on it, it is answered 503.
\<close>

theorem C1_attempt_bound:
  "(3 < GetAttemptsFromContext r \<longrightarrow> LB fwd r s = (service_unavailable, s)) \<and>
   (Value r Attempts = None \<longrightarrow>
      selections (snd (LB fwd r s)) \<le> selections s + 3 \<and>
      (failovers (snd (LB fwd r s)) = failovers s + 3 \<longrightarrow>
         fst (LB fwd r s) = service_unavailable))"
proof (intro conjI impI)
  assume "3 < GetAttemptsFromContext r"
  then show "LB fwd r s = (service_unavailable, s)"
    by (simp add: LB.simps)
next
  assume "Value r Attempts = None"
  then have a: "GetAttemptsFromContext r = 1"
    by (simp add: GetAttemptsFromContext_def)
  from selections_bound(1) [of fwd r s] a
  show "selections (snd (LB fwd r s)) \<le> selections s + 3" by simp
next
  assume "Value r Attempts = None"
  then have a: "GetAttemptsFromContext r = 1"
    by (simp add: GetAttemptsFromContext_def)
  assume "failovers (snd (LB fwd r s)) = failovers s + 3"
  with failovers_bound(1) [of fwd r s] a
  show "fst (LB fwd r s) = service_unavailable" by simp
qed

theorem C1_attempt_bound_witness:
  "3 < GetAttemptsFromContext [(Attempts, IntV 4)] \<and>
   LB always_fails [(Attempts, IntV 4)] (world_of [backend_a, backend_b, backend_c]) =
     (service_unavailable, world_of [backend_a, backend_b, backend_c]) \<and>
   Value [] Attempts = None \<and>
   selections (snd (LB always_fails [] (world_of [backend_a, backend_b, backend_c])))
     \<le> selections (world_of [backend_a, backend_b, backend_c]) + 3 \<and>
   failovers (snd (LB always_fails [] (world_of [backend_a, backend_b, backend_c]))) =
     failovers (world_of [backend_a, backend_b, backend_c]) + 3 \<and>
   fst (LB always_fails [] (world_of [backend_a, backend_b, backend_c])) = service_unavailable"
proof -
  have h1: "3 < GetAttemptsFromContext [(Attempts, IntV 4)]"
    by (simp add: GetAttemptsFromContext_def Value_def)
  have h2: "Value [] Attempts = None"
    by (simp add: Value_def)
  have h3: "failovers (snd (LB always_fails [] (world_of [backend_a, backend_b, backend_c]))) =
      failovers (world_of [backend_a, backend_b, backend_c]) + 3"
    by code_simp
  from C1_attempt_bound [of "[(Attempts, IntV 4)]" always_fails
      "world_of [backend_a, backend_b, backend_c]"]
    C1_attempt_bound [of "[]" always_fails "world_of [backend_a, backend_b, backend_c]"]
    h1 h2 h3
  show ?thesis by simp
qed

text \<open>
  C2. A run of the error handler on a request with fewer than 3 retries first waits
  10ms and then forwards to the same backend, with a retry count one higher. So the
  run of a proxy whose round trips all fail, on a request without a retry value, begins
  with 4 forwards to that backend (the first try and 3 retries, each after a 10ms wait),
  followed by the call that marks the backend down; at the end of the run the backend
  is down.
\<close>

theorem C2_retry_bound:
  "(GetRetryFromContext r < 3 \<longrightarrow>
      (\<exists>rest. events (snd (ErrorHandler fwd u r s)) =
         events s @
           [Backoff 10, Forwarded u (WithValue r Retry (IntV (GetRetryFromContext r + 1)))] @
           rest) \<and>
      GetRetryFromContext (WithValue r Retry (IntV (GetRetryFromContext r + 1))) =
        GetRetryFromContext r + 1) \<and>
   (Value r Retry = None \<and> (\<forall>k. \<not> fwd k u) \<longrightarrow>
      (\<exists>rest. events (snd (ServeHTTP fwd u r s)) =
         events s @
           [Forwarded u r, Backoff 10,
            Forwarded u (retry_ctx r 1), Backoff 10,
            Forwarded u (retry_ctx (retry_ctx r 1) 2), Backoff 10,
            Forwarded u (retry_ctx (retry_ctx (retry_ctx r 1) 2) 3),
            MarkBackendStatusCalled u False] @
           rest) \<and>
      is_down u (serverPool (snd (ServeHTTP fwd u r s))))"
proof (intro conjI impI)
  assume lt: "GetRetryFromContext r < 3"
  let ?r' = "WithValue r Retry (IntV (GetRetryFromContext r + 1))"
  let ?s1 = "record_event (Backoff 10) s"
  let ?s2 = "record_event (Forwarded u ?r') (?s1\<lparr>trips := trips ?s1 + 1\<rparr>)"
  from lt have eh: "ErrorHandler fwd u r s = ServeHTTP fwd u ?r' ?s1"
    by (simp add: ErrorHandler.simps)
  show "\<exists>rest. events (snd (ErrorHandler fwd u r s)) =
      events s @ [Backoff 10, Forwarded u ?r'] @ rest"
  proof (cases "fwd (trips ?s1) u")
    case True
    then have "events (snd (ServeHTTP fwd u ?r' ?s1)) = events s @ [Backoff 10, Forwarded u ?r'] @ []"
      by (simp add: ServeHTTP.simps record_event_def)
    with eh show ?thesis by metis
  next
    case False
    then have sh: "ServeHTTP fwd u ?r' ?s1 = ErrorHandler fwd u ?r' ?s2"
      by (simp add: ServeHTTP.simps)
    from events_grow(3) [of fwd u ?r' ?s2]
    obtain rest where "events (snd (ErrorHandler fwd u ?r' ?s2)) = events ?s2 @ rest" ..
    with eh sh have "events (snd (ErrorHandler fwd u r s)) =
        events s @ [Backoff 10, Forwarded u ?r'] @ rest"
      by (simp add: record_event_def)
    then show ?thesis ..
  qed
next
  show "GetRetryFromContext (WithValue r Retry (IntV (GetRetryFromContext r + 1))) =
      GetRetryFromContext r + 1"
    by (simp add: GetRetry_WithValue_Retry)
next
  assume h: "Value r Retry = None \<and> (\<forall>k. \<not> fwd k u)"
  then have h1: "Value r Retry = None" and h2: "\<And>k. \<not> fwd k u" by simp_all
  let ?r' = "WithValue (retry_ctx (retry_ctx (retry_ctx r 1) 2) 3) Attempts
      (IntV (int_succ (GetAttemptsFromContext r)))"
  let ?tr = "[Forwarded u r, Backoff 10,
      Forwarded u (retry_ctx r 1), Backoff 10,
      Forwarded u (retry_ctx (retry_ctx r 1) 2), Backoff 10,
      Forwarded u (retry_ctx (retry_ctx (retry_ctx r 1) 2) 3),
      MarkBackendStatusCalled u False]"
  let ?s' = "s\<lparr>trips := trips s + 4,
      serverPool := MarkBackendStatus (serverPool s) u False,
      events := events s @ ?tr\<rparr>"
  have run: "ServeHTTP fwd u r s = LB fwd ?r' ?s'"
    using h1 h2 by (rule ServeHTTP_gives_up [of r fwd u s])
  from events_grow(1) [of fwd ?r' ?s']
  obtain rest where "events (snd (LB fwd ?r' ?s')) = events ?s' @ rest" ..
  with run have "events (snd (ServeHTTP fwd u r s)) = events s @ ?tr @ rest"
    by simp
  then show "\<exists>rest. events (snd (ServeHTTP fwd u r s)) = events s @ ?tr @ rest" ..
  have "is_down u (serverPool ?s')"
    by (simp add: is_down_MarkBackendStatus)
  from is_down_kept(1) [OF this, of fwd ?r'] run
  show "is_down u (serverPool (snd (ServeHTTP fwd u r s)))" by simp
qed

theorem C2_retry_bound_witness:
  "GetRetryFromContext [(Retry, IntV 2)] < 3 \<and>
   (\<exists>rest. events (snd (ErrorHandler always_fails ''http://a'' [(Retry, IntV 2)]
        (world_of [backend_a]))) =
      events (world_of [backend_a]) @
        [Backoff 10, Forwarded ''http://a'' [(Retry, IntV 3), (Retry, IntV 2)]] @ rest) \<and>
   Value [] Retry = None \<and> (\<forall>k. \<not> always_fails k ''http://a'') \<and>
   (\<exists>rest. events (snd (ServeHTTP always_fails ''http://a'' [] (world_of [backend_a]))) =
      events (world_of [backend_a]) @
        [Forwarded ''http://a'' [], Backoff 10,
         Forwarded ''http://a'' [(Retry, IntV 1)], Backoff 10,
         Forwarded ''http://a'' [(Retry, IntV 2), (Retry, IntV 1)], Backoff 10,
         Forwarded ''http://a'' [(Retry, IntV 3), (Retry, IntV 2), (Retry, IntV 1)],
         MarkBackendStatusCalled ''http://a'' False] @ rest) \<and>
   is_down ''http://a''
     (serverPool (snd (ServeHTTP always_fails ''http://a'' [] (world_of [backend_a]))))"
proof -
  have h1: "GetRetryFromContext [(Retry, IntV 2)] < 3"
    by (simp add: GetRetryFromContext_def Value_def)
  have h2: "Value [] Retry = None \<and> (\<forall>k. \<not> always_fails k ''http://a'')"
    by (simp add: Value_def always_fails_def)
  note c1 = C2_retry_bound [of "[(Retry, IntV 2)]" always_fails "''http://a''"
      "world_of [backend_a]", THEN conjunct1, THEN mp, OF h1, THEN conjunct1]
  note c2 = C2_retry_bound [of "[]" always_fails "''http://a''"
      "world_of [backend_a]", THEN conjunct2, THEN mp, OF h2]
  have e1: "WithValue [(Retry, IntV 2)] Retry (IntV (GetRetryFromContext [(Retry, IntV 2)] + 1)) =
      [(Retry, IntV 3), (Retry, IntV 2)]"
    by (simp add: WithValue_def GetRetryFromContext_def Value_def)
  have e2: "retry_ctx [] 1 = [(Retry, IntV 1)]"
    "retry_ctx [(Retry, IntV 1)] 2 = [(Retry, IntV 2), (Retry, IntV 1)]"
    "retry_ctx [(Retry, IntV 2), (Retry, IntV 1)] 3 = [(Retry, IntV 3), (Retry, IntV 2), (Retry, IntV 1)]"
    by (simp_all add: retry_ctx_def WithValue_def)
  from h1 h2 c1 c2 show ?thesis
    unfolding e1 e2 by blast
qed

text \<open>
  C3. The run of a request without counters on a pool of two alive backends whose round
  trips all fail: the backend selected first is forwarded to 4 times and marked down; the
  request then carries a retry count of 3 into the next routing cycle, where the backend
  selected second is forwarded to once and marked down on that first failure.
\<close>

theorem C3_retry_count_carried_over:
  "fst (LB always_fails [] (world_of [backend_a, backend_b])) = service_unavailable \<and>
   events (snd (LB always_fails [] (world_of [backend_a, backend_b]))) =
     [GetNextPeerCalled,
      Forwarded ''http://b'' [], Backoff 10,
      Forwarded ''http://b'' [(Retry, IntV 1)], Backoff 10,
      Forwarded ''http://b'' [(Retry, IntV 2), (Retry, IntV 1)], Backoff 10,
      Forwarded ''http://b'' [(Retry, IntV 3), (Retry, IntV 2), (Retry, IntV 1)],
      MarkBackendStatusCalled ''http://b'' False,
      GetNextPeerCalled,
      Forwarded ''http://a''
        [(Attempts, IntV 2), (Retry, IntV 3), (Retry, IntV 2), (Retry, IntV 1)],
      MarkBackendStatusCalled ''http://a'' False,
      GetNextPeerCalled] \<and>
   forwards_to ''http://b'' (events (snd (LB always_fails [] (world_of [backend_a, backend_b])))) = 4 \<and>
   forwards_to ''http://a'' (events (snd (LB always_fails [] (world_of [backend_a, backend_b])))) = 1"
  by code_simp

text \<open>
  C4. \<open>GetNextPeer\<close> never returns a backend that is not alive; while some backend
  of the pool is alive it returns an alive backend of the pool; when every backend is
  dead, or the pool is empty, it returns none and the router answers 503.
\<close>

theorem C4_skip_dead:
  "(\<forall>b. fst (GetNextPeer (serverPool s)) = Some b \<longrightarrow> Alive b) \<and>
   ((\<exists>b\<in>set (backends (serverPool s)). Alive b) \<longrightarrow>
      (\<exists>b. fst (GetNextPeer (serverPool s)) = Some b \<and> Alive b \<and>
           b \<in> set (backends (serverPool s)))) \<and>
   ((\<forall>b\<in>set (backends (serverPool s)). \<not> Alive b) \<longrightarrow>
      fst (GetNextPeer (serverPool s)) = None \<and>
      fst (LB fwd r s) = service_unavailable)"
proof (intro conjI impI allI)
  fix b
  assume "fst (GetNextPeer (serverPool s)) = Some b"
  from GetNextPeer_returns_alive [OF this] show "Alive b" ..
next
  assume "\<exists>b\<in>set (backends (serverPool s)). Alive b"
  from GetNextPeer_finds_alive [OF this]
  obtain b where b: "fst (GetNextPeer (serverPool s)) = Some b" ..
  with GetNextPeer_returns_alive [OF b]
  show "\<exists>b. fst (GetNextPeer (serverPool s)) = Some b \<and> Alive b \<and>
      b \<in> set (backends (serverPool s))"
    by blast
next
  assume d: "\<forall>b\<in>set (backends (serverPool s)). \<not> Alive b"
  from GetNextPeer_all_dead [OF d]
  show "fst (GetNextPeer (serverPool s)) = None" .
  from LB_no_peer [OF GetNextPeer_all_dead [OF d]]
  show "fst (LB fwd r s) = service_unavailable" .
qed

theorem C4_skip_dead_witness:
  "Alive backend_b \<and>
   backend_b \<in> set (backends (serverPool (world_of [dead backend_a, backend_b]))) \<and>
   (\<exists>b. fst (GetNextPeer (serverPool (world_of [dead backend_a, backend_b]))) = Some b \<and>
        Alive b \<and> b \<in> set (backends (serverPool (world_of [dead backend_a, backend_b])))) \<and>
   list_all (\<lambda>b. \<not> Alive b) (backends (serverPool (world_of [dead backend_a]))) \<and>
   fst (GetNextPeer (serverPool (world_of [dead backend_a]))) = None \<and>
   fst (LB always_fails [] (world_of [dead backend_a])) = service_unavailable \<and>
   list_all (\<lambda>b. \<not> Alive b) (backends (serverPool (world_of []))) \<and>
   fst (GetNextPeer (serverPool (world_of []))) = None \<and>
   fst (LB always_fails [] (world_of [])) = service_unavailable"
proof -
  have h1: "Alive backend_b \<and>
      backend_b \<in> set (backends (serverPool (world_of [dead backend_a, backend_b])))"
    by (simp add: world_of_def backend_b_def)
  have h2: "list_all (\<lambda>b. \<not> Alive b) (backends (serverPool (world_of [dead backend_a])))"
    by (simp add: world_of_def dead_def)
  have h3: "list_all (\<lambda>b. \<not> Alive b) (backends (serverPool (world_of [])))"
    by (simp add: world_of_def)
  have a1: "\<exists>b\<in>set (backends (serverPool (world_of [dead backend_a, backend_b]))). Alive b"
    using h1 by blast
  have a2: "\<forall>b\<in>set (backends (serverPool (world_of [dead backend_a]))). \<not> Alive b"
    using h2 by (simp add: list_all_iff)
  have a3: "\<forall>b\<in>set (backends (serverPool (world_of []))). \<not> Alive b"
    by (simp add: world_of_def)
  note c1 = C4_skip_dead [of "world_of [dead backend_a, backend_b]" always_fails "[]",
      THEN conjunct2, THEN conjunct1, THEN mp, OF a1]
  note c2 = C4_skip_dead [of "world_of [dead backend_a]" always_fails "[]",
      THEN conjunct2, THEN conjunct2, THEN mp, OF a2]
  note c3 = C4_skip_dead [of "world_of []" always_fails "[]",
      THEN conjunct2, THEN conjunct2, THEN mp, OF a3]
  from h1 h2 h3 c1 c2 c3 show ?thesis by blast
qed

text \<open>
  C5. A reload whose body decodes without error to an empty list of URLs is answered 200
  and leaves the pool empty, so that every later request is answered 503. At startup an
  empty list of URLs ends the process, and a startup that goes on to serve has at least
  one backend.
\<close>

theorem C5_reload_can_empty_pool:
  "(\<not> snd (json_Unmarshal rt body) \<and> Urls (fst (json_Unmarshal rt body)) = [] \<longrightarrow>
      UpdateConfig rt body s =
        Ok (HttpStatus 200 (json_Marshal rt (fst (json_Unmarshal rt body)) @ [CHR 0x0A]))
          (s\<lparr>config_json :=
               WriteFile rt (json_Marshal rt (fst (json_Unmarshal rt body))) (config_json s),
             serverPool := (serverPool s)\<lparr>backends := []\<rparr>\<rparr>) \<and>
      fst (LB fwd r (state_of (UpdateConfig rt body s))) = service_unavailable) \<and>
   (Urls (fst (json_Unmarshal rt data)) = [] \<longrightarrow> is_fatal (main_startup rt (Some data))) \<and>
   (main_startup rt file = Ok port s' \<longrightarrow> backends (serverPool s') \<noteq> [])"
proof (intro conjI impI)
  assume h: "\<not> snd (json_Unmarshal rt body) \<and> Urls (fst (json_Unmarshal rt body)) = []"
  then show u: "UpdateConfig rt body s =
        Ok (HttpStatus 200 (json_Marshal rt (fst (json_Unmarshal rt body)) @ [CHR 0x0A]))
          (s\<lparr>config_json :=
               WriteFile rt (json_Marshal rt (fst (json_Unmarshal rt body))) (config_json s),
             serverPool := (serverPool s)\<lparr>backends := []\<rparr>\<rparr>)"
    by (simp add: UpdateConfig_accepted RemoveAllBackend_def)
  have "fst (GetNextPeer (serverPool (state_of (UpdateConfig rt body s)))) = None"
    by (rule GetNextPeer_all_dead) (simp add: u)
  then show "fst (LB fwd r (state_of (UpdateConfig rt body s))) = service_unavailable"
    by (rule LB_no_peer)
next
  assume "Urls (fst (json_Unmarshal rt data)) = []"
  then show "is_fatal (main_startup rt (Some data))"
    by (simp add: main_startup_def)
next
  assume "main_startup rt file = Ok port s'"
  then show "backends (serverPool s') \<noteq> []"
    by (rule main_startup_serving)
qed

theorem C5_reload_can_empty_pool_witness:
  "\<not> snd (json_Unmarshal example_runtime (example_marshal config_no_urls)) \<and>
   Urls (fst (json_Unmarshal example_runtime (example_marshal config_no_urls))) = [] \<and>
   UpdateConfig example_runtime (example_marshal config_no_urls) (world_of [backend_a, backend_b]) =
     Ok (HttpStatus 200 (example_marshal config_no_urls @ [CHR 0x0A]))
       ((world_of [backend_a, backend_b])
          \<lparr>config_json := Some (example_marshal config_no_urls),
           serverPool := \<lparr>backends = [], current = 0\<rparr>\<rparr>) \<and>
   fst (LB always_succeeds []
     (state_of (UpdateConfig example_runtime (example_marshal config_no_urls)
        (world_of [backend_a, backend_b])))) = service_unavailable \<and>
   is_fatal (main_startup example_runtime (Some (example_marshal config_no_urls))) \<and>
   main_startup example_runtime (Some (example_marshal config_good)) =
     Ok ''8080'' ((boot (Some (example_marshal config_good)))
       \<lparr>serverPool := \<lparr>backends = [backend_a, backend_b], current = 0\<rparr>\<rparr>) \<and>
   backends (serverPool ((boot (Some (example_marshal config_good)))
       \<lparr>serverPool := \<lparr>backends = [backend_a, backend_b], current = 0\<rparr>\<rparr>)) \<noteq> []"
proof -
  have h1: "\<not> snd (json_Unmarshal example_runtime (example_marshal config_no_urls)) \<and>
      Urls (fst (json_Unmarshal example_runtime (example_marshal config_no_urls))) = []"
    by code_simp
  have h3: "main_startup example_runtime (Some (example_marshal config_good)) =
     Ok ''8080'' ((boot (Some (example_marshal config_good)))
       \<lparr>serverPool := \<lparr>backends = [backend_a, backend_b], current = 0\<rparr>\<rparr>)"
    by code_simp
  have e: "fst (json_Unmarshal example_runtime (example_marshal config_no_urls)) = config_no_urls"
    by code_simp
  have m: "json_Marshal example_runtime = example_marshal"
    "WriteFile example_runtime = (\<lambda>content file. Some content)"
    by (simp_all add: example_runtime_def)
  have w: "serverPool (world_of [backend_a, backend_b])\<lparr>backends := []\<rparr> =
      \<lparr>backends = [], current = 0\<rparr>"
    by (simp add: world_of_def)
  note c = C5_reload_can_empty_pool [of example_runtime "example_marshal config_no_urls"
      "world_of [backend_a, backend_b]" always_succeeds "[]" "example_marshal config_no_urls"
      "Some (example_marshal config_good)" "''8080''"
      "(boot (Some (example_marshal config_good)))
         \<lparr>serverPool := \<lparr>backends = [backend_a, backend_b], current = 0\<rparr>\<rparr>"]
  note c1 = c [THEN conjunct1, THEN mp, OF h1, unfolded e m w]
  note c2 = c [THEN conjunct2, THEN conjunct1, THEN mp, OF h1 [THEN conjunct2]]
  note c3 = c [THEN conjunct2, THEN conjunct2, THEN mp, OF h3]
  from h1 h3 c1 c2 c3 show ?thesis by blast
qed

text \<open>
  C6. When decoding the body of a reload request returns an error, \<open>UpdateConfig\<close>
  answers 400 and returns in the state it was called in: the pool and the config file
  are as they were.
\<close>

theorem C6_parse_failure_leaves_pool:
  "snd (json_Unmarshal rt requestBody) \<Longrightarrow>
     UpdateConfig rt requestBody s = Ok (HttpStatus 400 []) s"
  by (simp add: UpdateConfig_def)

theorem C6_parse_failure_witness:
  "snd (json_Unmarshal example_runtime ''{'') \<and>
   UpdateConfig example_runtime ''{'' (world_of [backend_a, dead backend_b]) =
     Ok (HttpStatus 400 []) (world_of [backend_a, dead backend_b])"
proof -
  have h: "snd (json_Unmarshal example_runtime ''{'')"
    by code_simp
  from h C6_parse_failure_leaves_pool [OF h, of "world_of [backend_a, dead backend_b]"]
  show ?thesis by simp
qed


text \<open>
  C8. A request whose context carries no attempts value has 1 attempt, one whose context
  carries no retry value has 0 retries, and a stored integer is returned as it is.
\<close>

theorem C8_counters_default_and_stored:
  "(Value r Attempts = None \<longrightarrow> GetAttemptsFromContext r = 1) \<and>
   (Value r Retry = None \<longrightarrow> GetRetryFromContext r = 0) \<and>
   (Value r Attempts = Some (IntV a) \<longrightarrow> GetAttemptsFromContext r = a) \<and>
   (Value r Retry = Some (IntV n) \<longrightarrow> GetRetryFromContext r = n)"
  by (simp add: GetAttemptsFromContext_def GetRetryFromContext_def)

theorem C8_counters_witness:
  "Value [] Attempts = None \<and> GetAttemptsFromContext [] = 1 \<and>
   Value [] Retry = None \<and> GetRetryFromContext [] = 0 \<and>
   Value [(Retry, IntV 2), (Attempts, IntV 3)] Attempts = Some (IntV 3) \<and>
   GetAttemptsFromContext [(Retry, IntV 2), (Attempts, IntV 3)] = 3 \<and>
   Value [(Retry, IntV 2), (Attempts, IntV 3)] Retry = Some (IntV 2) \<and>
   GetRetryFromContext [(Retry, IntV 2), (Attempts, IntV 3)] = 2"
  using C8_counters_default_and_stored [of "[]" 3 2]
    C8_counters_default_and_stored [of "[(Retry, IntV 2), (Attempts, IntV 3)]" 3 2]
  by (simp add: Value_def Attempts_def Retry_def)



end
